theory Spec2Isabelle
  imports Main
begin

section \<open>JavaScript strings\<close>

text \<open>
  Source strings, token values and words are \<^typ>\<open>string\<close>: one \<^typ>\<open>char\<close> per code
  unit, which covers every code unit below 256. The quote characters are written by
  their code.
\<close>

definition squote :: char where
  "squote = CHR 0x27"

definition dquote :: char where
  "dquote = CHR 0x22"

definition backtick :: char where
  "backtick = CHR 0x60"

definition backslash :: char where
  "backslash = CHR 0x5C"

text \<open>
  \<open>s.slice(start, end)\<close>: a negative index counts from the end of the string, both
  indices are clamped to \<open>[0, length]\<close>, and an empty range gives the empty string.
\<close>

definition js_slice :: "string \<Rightarrow> int \<Rightarrow> int \<Rightarrow> string" where
  "js_slice s start stop =
     (let len = int (length s);
          lo = (if start < 0 then max (len + start) 0 else min start len);
          hi = (if stop < 0 then max (len + stop) 0 else min stop len)
      in take (nat (hi - lo)) (drop (nat lo) s))"

text \<open>
  \<open>s.substring(start, end)\<close>: both indices are clamped to \<open>[0, length]\<close> and swapped
  when the first is the larger.
\<close>

definition js_substring :: "string \<Rightarrow> int \<Rightarrow> int \<Rightarrow> string" where
  "js_substring s start stop =
     (let len = int (length s);
          a = min (max start 0) len;
          b = min (max stop 0) len
      in take (nat (max a b - min a b)) (drop (nat (min a b)) s))"

text \<open>\<open>s[i]\<close>: \<open>undefined\<close> (here \<open>None\<close>) outside the string.\<close>

definition js_index :: "string \<Rightarrow> int \<Rightarrow> char option" where
  "js_index s i = (if 0 \<le> i \<and> i < int (length s) then Some (s ! nat i) else None)"

text \<open>
  \<open>s.split(sep)\<close> for a separator of one character: the pieces between the
  separators, in order; the empty string gives one empty piece.
\<close>

fun js_split :: "char \<Rightarrow> string \<Rightarrow> string list" where
  "js_split sep [] = [[]]"
| "js_split sep (c # cs) =
     (if c = sep then [] # js_split sep cs
      else (case js_split sep cs of
              [] \<Rightarrow> [[c]]
            | p # ps \<Rightarrow> (c # p) # ps))"

text \<open>\<open>xs.join(sep)\<close>.\<close>

fun js_join :: "string \<Rightarrow> string list \<Rightarrow> string" where
  "js_join sep [] = []"
| "js_join sep [x] = x"
| "js_join sep (x # y # ys) = x @ sep @ js_join sep (y # ys)"

text \<open>
  The value of the text of an untagged template literal: a backslash before one of
  \<open>b f n r t v\<close> is the control character, a backslash before any other character
  handled here is dropped and the character kept (so \<open>\/\<close> is \<open>/\<close>, \<open>\s\<close> is \<open>s\<close> and
  \<open>\S\<close> is \<open>S\<close>). Hexadecimal, Unicode and digit escapes and line continuations do not
  occur in the template of \<open>isHTML\<close> and are not treated.
\<close>

definition escape_char :: "char \<Rightarrow> char" where
  "escape_char c =
     (if c = CHR ''b'' then CHR 0x08
      else if c = CHR ''f'' then CHR 0x0C
      else if c = CHR ''n'' then CHR 0x0A
      else if c = CHR ''r'' then CHR 0x0D
      else if c = CHR ''t'' then CHR 0x09
      else if c = CHR ''v'' then CHR 0x0B
      else c)"

fun template_value :: "string \<Rightarrow> string" where
  "template_value [] = []"
| "template_value [c] = [c]"
| "template_value (c # d # cs) =
     (if c = backslash then escape_char d # template_value cs
      else c # template_value (d # cs))"

section \<open>Regular expressions\<close>

text \<open>
  The fragment of the pattern syntax that \<open>isHTML\<close> uses: a pattern is a disjunction
  of alternatives separated by \<open>|\<close>, an alternative is a sequence of terms, a term is an
  atom with an optional quantifier \<open>?\<close>, \<open>*\<close> or \<open>+\<close>, and an atom is a pattern character
  or a class \<open>[...]\<close> of listed characters. \<open>|\<close> binds weakest. Patterns with groups,
  escapes, assertions, \<open>.\<close>, braces, class ranges or negated classes are outside the
  fragment and \<open>parse_pattern\<close> gives \<open>None\<close> for them, as for a malformed pattern.
\<close>

datatype atom = PatternChar char | CharClass "char list"

datatype quantifier = Once | ZeroOrOne | ZeroOrMore | OneOrMore

datatype rterm = Term atom quantifier

type_synonym alternative = "rterm list"

type_synonym disjunction = "alternative list"

definition quantifier_of :: "char \<Rightarrow> quantifier" where
  "quantifier_of c =
     (if c = CHR ''?'' then ZeroOrOne else if c = CHR ''*'' then ZeroOrMore else OneOrMore)"

text \<open>
  A quantifier character applies to the last term of the alternative read so far;
  with nothing before it the pattern is malformed. A \<open>?\<close> after a quantified term only
  makes it lazy, which does not change what \<open>test\<close> answers.
\<close>

fun quantify :: "char \<Rightarrow> alternative \<Rightarrow> alternative option" where
  "quantify c [] = None"
| "quantify c [Term a q] =
     (if q = Once then Some [Term a (quantifier_of c)]
      else if c = CHR ''?'' then Some [Term a q]
      else None)"
| "quantify c (t # u # ts) = map_option (Cons t) (quantify c (u # ts))"

definition syntax_char :: "char \<Rightarrow> bool" where
  "syntax_char c \<longleftrightarrow> c \<in> set ''^$.()]{}''"

text \<open>
  \<open>parse_pattern p cls cur\<close> reads the pattern \<open>p\<close> left to right; \<open>cls\<close> holds the
  characters of the class being read (\<open>None\<close> outside a class) and \<open>cur\<close> the terms of
  the current alternative.
\<close>

fun parse_pattern :: "string \<Rightarrow> char list option \<Rightarrow> alternative \<Rightarrow> disjunction option" where
  "parse_pattern [] None cur = Some [cur]"
| "parse_pattern [] (Some cls) cur = None"
| "parse_pattern (c # cs) (Some cls) cur =
     (if c = CHR '']'' then parse_pattern cs None (cur @ [Term (CharClass cls) Once])
      else if c = backslash \<or> c = CHR ''-'' \<or> c = CHR ''^'' then None
      else parse_pattern cs (Some (cls @ [c])) cur)"
| "parse_pattern (c # cs) None cur =
     (if c = CHR ''|'' then map_option (Cons cur) (parse_pattern cs None [])
      else if c = CHR ''['' then parse_pattern cs (Some []) cur
      else if c = CHR ''?'' \<or> c = CHR ''*'' \<or> c = CHR ''+'' then
        (case quantify c cur of
           None \<Rightarrow> None
         | Some cur' \<Rightarrow> parse_pattern cs None cur')
      else if syntax_char c \<or> c = backslash then None
      else parse_pattern cs None (cur @ [Term (PatternChar c) Once]))"

text \<open>
  Case-insensitive matching compares canonical characters: a lower-case ASCII letter
  becomes the upper-case one. A character above the ASCII range is never made equal to
  an ASCII one, and the pattern of \<open>isHTML\<close> is ASCII, so other characters are left as
  they are.
\<close>

definition canonicalize :: "bool \<Rightarrow> char \<Rightarrow> char" where
  "canonicalize ignoreCase c =
     (if ignoreCase
      then (case map_of (zip ''abcdefghijklmnopqrstuvwxyz'' ''ABCDEFGHIJKLMNOPQRSTUVWXYZ'') c of
              Some upper \<Rightarrow> upper
            | None \<Rightarrow> c)
      else c)"

fun atom_matches :: "bool \<Rightarrow> atom \<Rightarrow> char \<Rightarrow> bool" where
  "atom_matches ic (PatternChar p) c \<longleftrightarrow> canonicalize ic p = canonicalize ic c"
| "atom_matches ic (CharClass ps) c \<longleftrightarrow> list_ex (\<lambda>p. canonicalize ic p = canonicalize ic c) ps"

text \<open>\<open>match_terms ic ts s\<close>: some prefix of \<open>s\<close> matches the sequence of terms \<open>ts\<close>.\<close>

fun match_terms :: "bool \<Rightarrow> alternative \<Rightarrow> string \<Rightarrow> bool" where
  "match_terms ic [] s \<longleftrightarrow> True"
| "match_terms ic (Term a Once # ts) [] \<longleftrightarrow> False"
| "match_terms ic (Term a Once # ts) (c # cs) \<longleftrightarrow> atom_matches ic a c \<and> match_terms ic ts cs"
| "match_terms ic (Term a ZeroOrOne # ts) [] \<longleftrightarrow> match_terms ic ts []"
| "match_terms ic (Term a ZeroOrOne # ts) (c # cs) \<longleftrightarrow>
     (atom_matches ic a c \<and> match_terms ic ts cs) \<or> match_terms ic ts (c # cs)"
| "match_terms ic (Term a ZeroOrMore # ts) [] \<longleftrightarrow> match_terms ic ts []"
| "match_terms ic (Term a ZeroOrMore # ts) (c # cs) \<longleftrightarrow>
     (atom_matches ic a c \<and> match_terms ic (Term a ZeroOrMore # ts) cs) \<or> match_terms ic ts (c # cs)"
| "match_terms ic (Term a OneOrMore # ts) [] \<longleftrightarrow> False"
| "match_terms ic (Term a OneOrMore # ts) (c # cs) \<longleftrightarrow>
     atom_matches ic a c \<and> match_terms ic (Term a ZeroOrMore # ts) cs"

fun tails :: "string \<Rightarrow> string list" where
  "tails [] = [[]]"
| "tails (c # cs) = (c # cs) # tails cs"

record regexp =
  pattern :: disjunction
  ignoreCase :: bool

text \<open>
  \<open>new RegExp(source, flags)\<close> raises a syntax error for a pattern it cannot read;
  \<open>re.test(s)\<close> is true when some alternative matches at some position of \<open>s\<close>.
\<close>

datatype error = SyntaxError string | ParseError string nat nat nat

definition RegExp :: "string \<Rightarrow> string \<Rightarrow> error + regexp" where
  "RegExp source flags =
     (case parse_pattern source None [] of
        None \<Rightarrow> Inl (SyntaxError source)
      | Some d \<Rightarrow> Inr \<lparr>pattern = d, ignoreCase = (CHR ''i'' \<in> set flags)\<rparr>)"

definition test :: "regexp \<Rightarrow> string \<Rightarrow> bool" where
  "test re s \<longleftrightarrow>
     list_ex (\<lambda>suffix. list_ex (\<lambda>alt. match_terms (ignoreCase re) alt suffix) (pattern re)) (tails s)"

section \<open>Markup detection\<close>

definition html_tags :: "string list" where
  "html_tags =
    [''a'', ''abbr'', ''address'', ''area'', ''article'', ''aside'', ''audio'', ''b'',
     ''base'', ''bb'', ''bdo'', ''blockquote'', ''body'', ''br'', ''button'', ''canvas'',
     ''caption'', ''cite'', ''code'', ''col'', ''colgroup'', ''command'', ''datagrid'',
     ''datalist'', ''dd'', ''del'', ''details'', ''dfn'', ''dialog'', ''div'', ''dl'', ''dt'',
     ''em'', ''embed'', ''eventsource'', ''fieldset'', ''figcaption'', ''figure'', ''footer'',
     ''form'', ''h1'', ''h2'', ''h3'', ''h4'', ''h5'', ''h6'', ''head'', ''header'',
     ''hgroup'', ''hr'', ''html'', ''i'', ''iframe'', ''img'', ''input'', ''ins'', ''kbd'',
     ''label'', ''legend'', ''li'', ''link'', ''map'', ''mark'', ''menu'', ''meter'', ''nav'',
     ''noscript'', ''object'', ''ol'', ''optgroup'', ''option'', ''output'', ''p'', ''param'',
     ''pre'', ''progress'', ''q'', ''rp'', ''rt'', ''ruby'', ''s'', ''samp'', ''section'',
     ''select'', ''small'', ''source'', ''span'', ''strong'', ''sub'', ''sup'', ''table'',
     ''tbody'', ''td'', ''textarea'', ''tfoot'', ''th'', ''thead'', ''time'', ''title'',
     ''tr'', ''track'', ''u'', ''ul'', ''var'', ''video'', ''wbr'']"

text \<open>
  \<open>isHTML\<close> joins the tag names with \<open>|\<close> and puts the result between the two
  pieces of text of its template literal, \<open><\/?\<close> and \<open>[\s\S]*>\<close>, without a
  group around the names; the pattern is compiled with the flag \<open>i\<close>.
\<close>

definition valid_html_tags :: string where
  "valid_html_tags = js_join ''|'' html_tags"

definition html_pattern_source :: string where
  "html_pattern_source =
     template_value ([CHR ''<'', backslash, CHR ''/'', CHR ''?''])
     @ valid_html_tags
     @ template_value ([CHR ''['', backslash, CHR ''s'', backslash, CHR ''S'', CHR '']'', CHR ''*'', CHR ''>''])"

definition isHTML :: "string \<Rightarrow> error + bool" where
  "isHTML str =
     (case RegExp html_pattern_source ''i'' of
        Inl e \<Rightarrow> Inl e
      | Inr regex \<Rightarrow> Inr (test regex str))"

section \<open>Tokens, the tokenizer and its error handler\<close>

text \<open>
  A token as the classifier reads it: an object with a \<open>type\<close> and a \<open>value\<close>, or an
  object without any property (\<open>Object.keys(token).length === 0\<close>).
\<close>

datatype token = EmptyObject | Token (token_type: string) (token_value: string)

text \<open>
  Modelled from the spec: the classes \<open>Tokenizer\<close>, \<open>CustomTokenizer\<close> and
  \<open>ErrorHandler\<close> are not among the sources. A tokenizer built over a source text is
  represented by what its successive calls of \<open>getNextToken\<close> do: they deliver the
  tokens \<open>pending\<close>, in source order, and then either answer nothing (end of input)
  or raise a lexical error (section 4.1). Its error handler has the mode chosen from
  the \<open>tolerant\<close> option and the list of errors recorded so far; \<open>tolerate\<close> raises
  the error in strict mode and appends it to the list in tolerant mode (section
  4.2). Errors that the scanner records by itself while it goes on are not represented.
\<close>

datatype scan_end = EndOfInput | Raises error

record error_handler =
  tolerant :: bool
  errors :: "error list"

record tokenizer =
  pending :: "token list"
  ending :: scan_end
  errorHandler :: error_handler

definition tolerate :: "error \<Rightarrow> error_handler \<Rightarrow> error + error_handler" where
  "tolerate e h = (if tolerant h then Inr (h\<lparr>errors := errors h @ [e]\<rparr>) else Inl e)"

text \<open>
  The array of tokens a call returns, with the \<open>errors\<close> property it may carry. An
  element is a \<open>{type, value}\<close> pair built by the classifier, a token as the tokenizer
  delivered it, or whatever the delegate made of a token.
\<close>

datatype 'a item = TypeValue string string | Plain token | Transformed 'a

record 'a token_array =
  items :: "'a list"
  attached_errors :: "error list option"

definition push :: "'a list \<Rightarrow> 'a \<Rightarrow> 'a list" where
  "push xs x = xs @ [x]"

text \<open>
  \<open>if (delegate) { token = delegate(token); }\<close>. The delegate is a function of
  the caller; one that raises is not represented.
\<close>

definition apply_delegate :: "(token \<Rightarrow> 'a) option \<Rightarrow> token \<Rightarrow> 'a item" where
  "apply_delegate delegate t = (case delegate of None \<Rightarrow> Plain t | Some f \<Rightarrow> Transformed (f t))"

text \<open>
  What follows the loop of all three functions: an error caught from the loop goes to
  \<open>tolerate\<close>, and the errors are attached to the tokens when the handler is tolerant.
\<close>

definition after_loop :: "error_handler \<Rightarrow> error option \<Rightarrow> 'a list \<Rightarrow> error + 'a token_array" where
  "after_loop h caught tokens =
     (case (case caught of None \<Rightarrow> Inr h | Some e \<Rightarrow> tolerate e h) of
        Inl e \<Rightarrow> Inl e
      | Inr h' \<Rightarrow>
          Inr \<lparr>items = tokens,
               attached_errors = (if tolerant h' then Some (errors h') else None)\<rparr>)"

section \<open>tokenize\<close>

text \<open>
  The loop of \<open>tokenize\<close>; the result is the error caught, if any, and the tokens
  pushed so far.
\<close>

fun tokenize_loop ::
  "(token \<Rightarrow> 'a) option \<Rightarrow> scan_end \<Rightarrow> token list \<Rightarrow> 'a item list \<Rightarrow> error option \<times> 'a item list" where
  "tokenize_loop delegate EndOfInput [] tokens = (None, tokens)"
| "tokenize_loop delegate (Raises e) [] tokens = (Some e, tokens)"
| "tokenize_loop delegate fin (token # rest) tokens =
     tokenize_loop delegate fin rest (push tokens (apply_delegate delegate token))"

definition tokenize :: "tokenizer \<Rightarrow> (token \<Rightarrow> 'a) option \<Rightarrow> error + 'a item token_array" where
  "tokenize tk delegate =
     (case tokenize_loop delegate (ending tk) (pending tk) [] of
        (caught, tokens) \<Rightarrow> after_loop (errorHandler tk) caught tokens)"

section \<open>tokenizeC\<close>

text \<open>
  The pieces of a literal. A piece that starts with a quote character is cut by
  \<open>slice(1, length - 1)\<close>; the string branch of the classifier with markup detection
  then cuts a leading \<open>.\<close> or \<open>#\<close> by \<open>slice(1, length)\<close>.
\<close>

definition cut_quotes :: "string \<Rightarrow> string" where
  "cut_quotes element =
     (if js_substring element 0 1 = [squote] \<or> js_substring element 0 1 = [dquote]
      then js_slice element 1 (int (length element) - 1)
      else element)"

definition cut_selector :: "string \<Rightarrow> string" where
  "cut_selector element =
     (if js_substring element 0 1 = ''.'' \<or> js_substring element 0 1 = ''#''
      then js_slice element 1 (int (length element))
      else element)"

definition unwrappedString :: "string \<Rightarrow> string" where
  "unwrappedString v = js_slice v 1 (int (length v) - 1)"

definition unwrappedTemplate :: "string \<Rightarrow> string" where
  "unwrappedTemplate v =
     (let len = int (length v);
          isOpenedTemplate = (js_index v 0 = Some backtick);
          isClosedTemplate = (js_index v (len - 1) = Some backtick)
      in js_slice v (if isOpenedTemplate then 1 else 0) (if isClosedTemplate then len - 1 else len))"

subsection \<open>The variant of \<open>src/esprima.ts\<close>\<close>

text \<open>
  The loop stops (\<open>break\<close>) at a token with an empty value or of a type other than
  \<open>Identifier\<close>, \<open>Template\<close> and \<open>String\<close>, and after the pieces of the first string
  or template; an identifier goes through the delegate and is pushed.
\<close>

fun tokenizeC_esprima_loop ::
  "(token \<Rightarrow> 'a) option \<Rightarrow> scan_end \<Rightarrow> token list \<Rightarrow> 'a item list \<Rightarrow> error option \<times> 'a item list" where
  "tokenizeC_esprima_loop delegate EndOfInput [] tokens = (None, tokens)"
| "tokenizeC_esprima_loop delegate (Raises e) [] tokens = (Some e, tokens)"
| "tokenizeC_esprima_loop delegate fin (EmptyObject # rest) tokens = (None, tokens)"
| "tokenizeC_esprima_loop delegate fin (Token type v # rest) tokens =
     (if v = [] \<or> (type \<noteq> ''Identifier'' \<and> type \<noteq> ''Template'' \<and> type \<noteq> ''String'')
      then (None, tokens)
      else if type = ''String'' then
        (None, foldl (\<lambda>tokens element. push tokens (TypeValue type (cut_quotes element)))
                 tokens (js_split CHR '' '' (unwrappedString v)))
      else if type = ''Template'' then
        (None, foldl (\<lambda>tokens element. push tokens (TypeValue type (cut_quotes element)))
                 tokens (js_split CHR '' '' (unwrappedTemplate v)))
      else tokenizeC_esprima_loop delegate fin rest
             (push tokens (apply_delegate delegate (Token type v))))"

definition tokenizeC_esprima :: "tokenizer \<Rightarrow> (token \<Rightarrow> 'a) option \<Rightarrow> error + 'a item token_array" where
  "tokenizeC_esprima tk delegate =
     (case tokenizeC_esprima_loop delegate (ending tk) (pending tk) [] of
        (caught, tokens) \<Rightarrow> after_loop (errorHandler tk) caught tokens)"

subsection \<open>The variant with markup detection\<close>

text \<open>
  The second file builds a \<open>CustomTokenizer\<close>, skips empty objects, sends a string or
  template that \<open>isHTML\<close> accepts to \<open>html_tokens\<close> and its pieces to \<open>tokens\<close>
  otherwise, and goes on (\<open>continue\<close>) after each token. For any other token it calls the
  delegate and then pushes \<open>value\<close>, the text read from the token before that call.
\<close>

fun tokenizeC_custom_loop ::
  "(token \<Rightarrow> 'a) option \<Rightarrow> scan_end \<Rightarrow> token list \<Rightarrow> string list \<Rightarrow> string list
     \<Rightarrow> error option \<times> string list \<times> string list" where
  "tokenizeC_custom_loop delegate EndOfInput [] tokens html = (None, tokens, html)"
| "tokenizeC_custom_loop delegate (Raises e) [] tokens html = (Some e, tokens, html)"
| "tokenizeC_custom_loop delegate fin (EmptyObject # rest) tokens html =
     tokenizeC_custom_loop delegate fin rest tokens html"
| "tokenizeC_custom_loop delegate fin (Token type v # rest) tokens html =
     (if type = ''String'' then
        (case isHTML (unwrappedString v) of
           Inl e \<Rightarrow> (Some e, tokens, html)
         | Inr markup \<Rightarrow>
             if markup
             then tokenizeC_custom_loop delegate fin rest tokens (push html (unwrappedString v))
             else tokenizeC_custom_loop delegate fin rest
                    (foldl (\<lambda>tokens element. push tokens (cut_selector (cut_quotes element)))
                       tokens (js_split CHR '' '' (unwrappedString v)))
                    html)
      else if type = ''Template'' then
        (case isHTML (unwrappedTemplate v) of
           Inl e \<Rightarrow> (Some e, tokens, html)
         | Inr markup \<Rightarrow>
             if markup
             then tokenizeC_custom_loop delegate fin rest tokens (push html (unwrappedTemplate v))
             else tokenizeC_custom_loop delegate fin rest
                    (foldl (\<lambda>tokens element. push tokens (cut_quotes element))
                       tokens (js_split CHR '' '' (unwrappedTemplate v)))
                    html)
      else
        (let token' = apply_delegate delegate (Token type v)
         in tokenizeC_custom_loop delegate fin rest (push tokens v) html))"

text \<open>The object returned: \<open>{tokens, html_tokens}\<close>.\<close>

record classified =
  tokens :: "string token_array"
  html_tokens :: "string list"

definition tokenizeC_custom :: "tokenizer \<Rightarrow> (token \<Rightarrow> 'a) option \<Rightarrow> error + classified" where
  "tokenizeC_custom tk delegate =
     (case tokenizeC_custom_loop delegate (ending tk) (pending tk) [] [] of
        (caught, words, html) \<Rightarrow>
          (case after_loop (errorHandler tk) caught words of
             Inl e \<Rightarrow> Inl e
           | Inr array \<Rightarrow> Inr \<lparr>tokens = array, html_tokens = html\<rparr>))"

section \<open>parse, parseModule, parseScript\<close>

text \<open>
  The options argument is an object that the caller keeps and that \<open>parse\<close>,
  \<open>parseModule\<close> and \<open>parseScript\<close> write to, so objects live in a store and the
  argument is a reference into it (\<open>None\<close> when the caller passes no options). A
  property that is not set reads as \<open>JUndefined\<close>.
\<close>

datatype js_value = JUndefined | JBoolean bool | JString string | JNumber int

record options =
  comment :: js_value
  attachComment :: js_value
  sourceType :: js_value
  jsx :: js_value
  other :: "string \<Rightarrow> js_value"

definition empty_object :: options where
  "empty_object = \<lparr>comment = JUndefined, attachComment = JUndefined, sourceType = JUndefined,
                     jsx = JUndefined, other = (\<lambda>_. JUndefined)\<rparr>"

record store =
  object :: "nat \<Rightarrow> options"
  next_ref :: nat

definition new_object :: "store \<Rightarrow> nat \<times> store" where
  "new_object st =
     (next_ref st,
      st\<lparr>object := (object st)(next_ref st := empty_object), next_ref := Suc (next_ref st)\<rparr>)"

definition set_comment :: "nat \<Rightarrow> js_value \<Rightarrow> store \<Rightarrow> store" where
  "set_comment r v st = st\<lparr>object := (object st)(r := (object st r)\<lparr>comment := v\<rparr>)\<rparr>"

definition set_sourceType :: "nat \<Rightarrow> js_value \<Rightarrow> store \<Rightarrow> store" where
  "set_sourceType r v st = st\<lparr>object := (object st)(r := (object st r)\<lparr>sourceType := v\<rparr>)\<rparr>"

text \<open>\<open>typeof v === 'boolean' && v\<close>\<close>

definition boolean_true :: "js_value \<Rightarrow> bool" where
  "boolean_true v \<longleftrightarrow> v = JBoolean True"

text \<open>
  Modelled from the spec: the classes \<open>Parser\<close>, \<open>JSXParser\<close> and \<open>CommentHandler\<close>
  are not among the sources. A parser is taken as a parameter: given which class is
  built (\<open>JSXParser\<close> or \<open>Parser\<close>), the source text, the properties of the options
  object at that moment, the delegate handed over and the entry point called
  (\<open>parseModule\<close> or \<open>parseScript\<close>), it raises or gives the program together with what
  \<open>parse\<close> reads afterwards from the parser and from the comment handler. The parser
  reads the options and does not write to them.
\<close>

record comment_handler =
  attach :: bool

datatype 'd parser_delegate = ProxyDelegate "'d option" "comment_handler option"

record 'n parsing =
  program :: 'n
  config_tokens :: bool
  config_tolerant :: bool
  parser_tokens :: "token list"
  parser_errors :: "error list"
  handler_comments :: "string list"

type_synonym ('d, 'n) parser =
  "bool \<Rightarrow> string \<Rightarrow> options option \<Rightarrow> 'd parser_delegate option \<Rightarrow> bool \<Rightarrow> error + 'n parsing"

record 'n ast =
  root :: 'n
  comments :: "string list option"
  ast_tokens :: "token list option"
  ast_errors :: "error list option"

definition parse ::
  "('d, 'n) parser \<Rightarrow> string \<Rightarrow> nat option \<Rightarrow> 'd option \<Rightarrow> store \<Rightarrow> (error + 'n ast) \<times> store" where
  "parse parser code opts delegate st =
     (let collectComment =
            (case opts of None \<Rightarrow> False | Some r \<Rightarrow> boolean_true (comment (object st r)));
          attachComment =
            (case opts of None \<Rightarrow> False | Some r \<Rightarrow> boolean_true (attachComment (object st r)));
          commentHandler =
            (if collectComment \<or> attachComment then Some \<lparr>attach = attachComment\<rparr> else None);
          st' =
            (case opts of
               None \<Rightarrow> st
             | Some r \<Rightarrow> if collectComment \<or> attachComment then set_comment r (JBoolean True) st else st);
          parserDelegate =
            (if delegate \<noteq> None \<or> collectComment \<or> attachComment
             then Some (ProxyDelegate delegate commentHandler) else None);
          isModule =
            (case opts of
               None \<Rightarrow> False
             | Some r \<Rightarrow> (case sourceType (object st' r) of JString t \<Rightarrow> t = ''module'' | _ \<Rightarrow> False));
          useJSX =
            (case opts of None \<Rightarrow> False | Some r \<Rightarrow> boolean_true (jsx (object st' r)))
      in (case parser useJSX code (map_option (object st') opts) parserDelegate isModule of
            Inl e \<Rightarrow> Inl e
          | Inr p \<Rightarrow>
              Inr \<lparr>root = program p,
                   comments = (if collectComment \<and> commentHandler \<noteq> None
                               then Some (handler_comments p) else None),
                   ast_tokens = (if config_tokens p then Some (parser_tokens p) else None),
                   ast_errors = (if config_tolerant p then Some (parser_errors p) else None)\<rparr>,
          st'))"

text \<open>\<open>const parsingOptions = options || {}\<close>: a new object when there are no options.\<close>

definition options_or_new :: "nat option \<Rightarrow> store \<Rightarrow> nat \<times> store" where
  "options_or_new opts st = (case opts of Some r \<Rightarrow> (r, st) | None \<Rightarrow> new_object st)"

definition parseModule ::
  "('d, 'n) parser \<Rightarrow> string \<Rightarrow> nat option \<Rightarrow> 'd option \<Rightarrow> store \<Rightarrow> (error + 'n ast) \<times> store" where
  "parseModule parser code opts delegate st =
     (case options_or_new opts st of
        (parsingOptions, st') \<Rightarrow>
          parse parser code (Some parsingOptions) delegate
            (set_sourceType parsingOptions (JString ''module'') st'))"

definition parseScript ::
  "('d, 'n) parser \<Rightarrow> string \<Rightarrow> nat option \<Rightarrow> 'd option \<Rightarrow> store \<Rightarrow> (error + 'n ast) \<times> store" where
  "parseScript parser code opts delegate st =
     (case options_or_new opts st of
        (parsingOptions, st') \<Rightarrow>
          parse parser code (Some parsingOptions) delegate
            (set_sourceType parsingOptions (JString ''script'') st'))"

section \<open>Notions used to state the properties\<close>

text \<open>
  The pattern of \<open>isHTML\<close> as \<open>RegExp\<close> reads it. \<open>|\<close> binds weakest and the template
  has no group, so the first alternative is \<open></?a\<close>, the last is \<open>wbr[sS]*>\<close> (the
  backslashes of \<open>\s\<close> and \<open>\S\<close> are gone from the value of the template) and every
  tag name between \<open>a\<close> and \<open>wbr\<close> is an alternative of its own.
\<close>

definition literal :: "string \<Rightarrow> alternative" where
  "literal s = map (\<lambda>c. Term (PatternChar c) Once) s"

definition html_disjunction :: disjunction where
  "html_disjunction =
     [Term (PatternChar CHR ''<'') Once, Term (PatternChar CHR ''/'') ZeroOrOne,
      Term (PatternChar CHR ''a'') Once]
     # map literal (butlast (tl html_tags))
     @ [literal ''wbr'' @ [Term (CharClass ''sS'') ZeroOrMore, Term (PatternChar CHR ''>'') Once]]"

definition markup :: "string \<Rightarrow> bool" where
  "markup s \<longleftrightarrow> test \<lparr>pattern = html_disjunction, ignoreCase = True\<rparr> s"

text \<open>
  Every alternative of the pattern starts with a single character; \<open>first_chars\<close> are
  those characters in canonical form.
\<close>

definition first_chars :: "char list" where
  "first_chars = ''<ABCDEFHIKLMNOPQRSTUVW''"

definition starts_with_first_char :: "alternative \<Rightarrow> bool" where
  "starts_with_first_char alt =
     (case alt of
        Term (PatternChar a) Once # _ \<Rightarrow> canonicalize True a \<in> set first_chars
      | _ \<Rightarrow> False)"

text \<open>What the loop has caught when the tokenizer is exhausted.\<close>

definition caught_of :: "scan_end \<Rightarrow> error option" where
  "caught_of fin = (case fin of EndOfInput \<Rightarrow> None | Raises e \<Rightarrow> Some e)"

text \<open>
  A piece of a literal in terms of lists: a piece that starts with a quote character
  loses its first and its last character; a leading \<open>.\<close> or \<open>#\<close> is one character.
\<close>

definition starts_with_quote :: "string \<Rightarrow> bool" where
  "starts_with_quote piece = (case piece of [] \<Rightarrow> False | c # _ \<Rightarrow> c = squote \<or> c = dquote)"

definition starts_with_selector :: "string \<Rightarrow> bool" where
  "starts_with_selector piece = (case piece of [] \<Rightarrow> False | c # _ \<Rightarrow> c = CHR ''.'' \<or> c = CHR ''#'')"

definition plain_word :: "string \<Rightarrow> string" where
  "plain_word piece = (if starts_with_quote piece then butlast (tl piece) else piece)"

definition selector_word :: "string \<Rightarrow> string" where
  "selector_word piece =
     (if starts_with_selector (plain_word piece) then tl (plain_word piece) else plain_word piece)"

text \<open>The characters of a piece other than quote characters.\<close>

definition non_quote_chars :: "string \<Rightarrow> string" where
  "non_quote_chars s = filter (\<lambda>c. c \<noteq> squote \<and> c \<noteq> dquote) s"

text \<open>
  The text of a string or template token without its delimiters, and what one token
  adds to \<open>tokens\<close> and to \<open>html_tokens\<close> in the variant with markup detection.
\<close>

definition literal_text :: "string \<Rightarrow> string \<Rightarrow> string" where
  "literal_text type v = (if type = ''String'' then unwrappedString v else unwrappedTemplate v)"

fun words_of :: "token \<Rightarrow> string list" where
  "words_of EmptyObject = []"
| "words_of (Token type v) =
     (if type = ''String'' then
        (if markup (unwrappedString v) then []
         else map selector_word (js_split CHR '' '' (unwrappedString v)))
      else if type = ''Template'' then
        (if markup (unwrappedTemplate v) then []
         else map plain_word (js_split CHR '' '' (unwrappedTemplate v)))
      else [v])"

fun fragments_of :: "token \<Rightarrow> string list" where
  "fragments_of EmptyObject = []"
| "fragments_of (Token type v) =
     (if type = ''String'' then (if markup (unwrappedString v) then [unwrappedString v] else [])
      else if type = ''Template'' then (if markup (unwrappedTemplate v) then [unwrappedTemplate v] else [])
      else [])"

text \<open>
  Kinds of tokens for the variant of \<open>src/esprima.ts\<close>: a token outside the set of
  identifiers, templates and strings, a string or template with a value, and an identifier
  with a value.
\<close>

definition outside_set :: "token \<Rightarrow> bool" where
  "outside_set t =
     (case t of
        EmptyObject \<Rightarrow> True
      | Token type v \<Rightarrow> type \<noteq> ''Identifier'' \<and> type \<noteq> ''Template'' \<and> type \<noteq> ''String'')"

definition is_literal :: "token \<Rightarrow> bool" where
  "is_literal t =
     (case t of
        EmptyObject \<Rightarrow> False
      | Token type v \<Rightarrow> v \<noteq> [] \<and> (type = ''String'' \<or> type = ''Template''))"

definition is_identifier :: "token \<Rightarrow> bool" where
  "is_identifier t =
     (case t of EmptyObject \<Rightarrow> False | Token type v \<Rightarrow> v \<noteq> [] \<and> type = ''Identifier'')"

text \<open>
  What the variant of \<open>src/esprima.ts\<close> has pushed when its loop is left: the
  identifiers before the first other token, each as the delegate left it, and then the
  pieces of that token when it is a string or a template with a value.
\<close>

definition literal_pairs :: "token \<Rightarrow> 'a item list" where
  "literal_pairs t =
     (case t of
        EmptyObject \<Rightarrow> []
      | Token type v \<Rightarrow>
          if is_literal t
          then map (\<lambda>piece. TypeValue type (plain_word piece))
                 (js_split CHR '' '' (literal_text type v))
          else [])"

definition esprima_items :: "(token \<Rightarrow> 'a) option \<Rightarrow> token list \<Rightarrow> 'a item list" where
  "esprima_items d ts =
     map (apply_delegate d) (takeWhile is_identifier ts)
     @ (case dropWhile is_identifier ts of [] \<Rightarrow> [] | t # _ \<Rightarrow> literal_pairs t)"

text \<open>The mode in which the handler attaches its errors to the tokens.\<close>

definition errors_attached :: "error_handler \<Rightarrow> error list option" where
  "errors_attached h = (if tolerant h then Some (errors h) else None)"

section \<open>Strings: slices and pieces\<close>

lemma js_slice_inner: "js_slice s 1 (int (length s) - 1) = butlast (tl s)"
proof (cases s)
  case Nil
  then show ?thesis by (simp add: js_slice_def)
next
  case (Cons c cs)
  then show ?thesis
    by (cases cs rule: rev_cases) (simp_all add: js_slice_def Let_def butlast_conv_take)
qed

lemma js_slice_tail: "js_slice s 1 (int (length s)) = tl s"
  by (cases s) (simp_all add: js_slice_def Let_def)

lemma js_substring_first: "js_substring s 0 1 = take 1 s"
  by (cases s) (simp_all add: js_substring_def Let_def)

lemma cut_quotes_plain_word: "cut_quotes piece = plain_word piece"
  unfolding cut_quotes_def js_substring_first js_slice_inner plain_word_def starts_with_quote_def
  by (cases piece) simp_all

lemma cut_selector_tail:
  "cut_selector piece = (if starts_with_selector piece then tl piece else piece)"
  unfolding cut_selector_def js_substring_first js_slice_tail starts_with_selector_def
  by (cases piece) simp_all

lemma cut_selector_plain_word: "cut_selector (plain_word piece) = selector_word piece"
  by (simp add: cut_selector_tail selector_word_def)

lemma unwrappedString_inner: "unwrappedString v = butlast (tl v)"
  by (simp add: unwrappedString_def js_slice_inner)

text \<open>
  \<open>split\<close> cuts at every separator: no piece holds one, and joining the pieces with
  the separator gives the text back.
\<close>

lemma js_split_nonempty: "js_split sep s \<noteq> []"
  by (induction s) (auto split: list.splits)

lemma js_split_no_sep: "p \<in> set (js_split sep s) \<Longrightarrow> sep \<notin> set p"
  by (induction s arbitrary: p) (auto split: list.splits if_splits)

lemma js_join_split: "js_join [sep] (js_split sep s) = s"
proof (induction s)
  case Nil
  show ?case by simp
next
  case (Cons c cs)
  then show ?case
    using js_split_nonempty [of sep cs]
    by (cases "js_split sep cs"; cases "tl (js_split sep cs)") (auto split: list.splits)
qed

section \<open>The pattern of isHTML\<close>

lemma parse_html_pattern: "parse_pattern html_pattern_source None [] = Some html_disjunction"
  by code_simp

lemma isHTML_markup: "isHTML s = Inr (markup s)"
  by (simp add: isHTML_def RegExp_def parse_html_pattern markup_def)

text \<open>
  A text that holds one of the tag names between \<open>a\<close> and \<open>wbr\<close>, in any case, is
  accepted, wherever the name stands and whatever surrounds it.
\<close>

lemma match_literal:
  "map (canonicalize True) w = map (canonicalize True) tag \<Longrightarrow>
   match_terms True (literal tag) (w @ post)"
proof (induction tag arbitrary: w)
  case Nil
  then show ?case by (simp add: literal_def)
next
  case (Cons a as)
  then obtain c cs where w: "w = c # cs" by (cases w) auto
  with Cons.prems have "canonicalize True a = canonicalize True c"
    and "map (canonicalize True) cs = map (canonicalize True) as" by auto
  with Cons.IH [of cs] w show ?case by (simp add: literal_def)
qed

lemma tails_self: "s \<in> set (tails s)"
  by (cases s) simp_all

lemma tails_append: "s \<in> set (tails (pre @ s))"
  by (induction pre) (simp_all add: tails_self)

lemma markup_alternative:
  "alt \<in> set html_disjunction \<Longrightarrow> match_terms True alt s \<Longrightarrow> markup (pre @ s)"
  unfolding markup_def test_def list_ex_iff
  using tails_append [of s pre] by auto

lemma markup_tag:
  assumes "tag \<in> set (butlast (tl html_tags))"
    and "map (canonicalize True) w = map (canonicalize True) tag"
  shows "markup (pre @ w @ post)"
proof -
  have "literal tag \<in> set html_disjunction"
    using assms(1) by (simp add: html_disjunction_def)
  then show ?thesis
    using match_literal [OF assms(2)] by (rule markup_alternative)
qed

text \<open>A text without any of the first characters is rejected.\<close>

lemma all_start_with_first_char: "list_all starts_with_first_char html_disjunction"
  by code_simp

lemma no_match_without_first_char:
  assumes "starts_with_first_char alt" and "canonicalize True c \<notin> set first_chars"
  shows "\<not> match_terms True alt (c # cs)"
proof -
  from assms(1) obtain a rest where "alt = Term (PatternChar a) Once # rest"
    and "canonicalize True a \<in> set first_chars"
    by (auto simp: starts_with_first_char_def
          split: list.splits rterm.splits atom.splits quantifier.splits)
  with assms(2) show ?thesis by auto
qed

lemma no_match_empty: "starts_with_first_char alt \<Longrightarrow> \<not> match_terms True alt []"
  by (auto simp: starts_with_first_char_def
        split: list.splits rterm.splits atom.splits quantifier.splits)

lemma not_markup:
  assumes "\<forall>c \<in> set s. canonicalize True c \<notin> set first_chars"
  shows "\<not> markup s"
proof -
  have alts: "\<And>alt. alt \<in> set html_disjunction \<Longrightarrow> starts_with_first_char alt"
    using all_start_with_first_char by (simp add: list_all_iff)
  have "\<not> match_terms True alt suffix"
    if "alt \<in> set html_disjunction" and "suffix \<in> set (tails s)" for alt suffix
    using that(2) assms
  proof (induction s)
    case Nil
    then show ?case using no_match_empty [OF alts [OF that(1)]] by simp
  next
    case (Cons c cs)
    then show ?case
      using no_match_without_first_char [OF alts [OF that(1)], of c cs] by auto
  qed
  then show ?thesis by (auto simp: markup_def test_def list_ex_iff)
qed

section \<open>The loops\<close>

lemma foldl_snoc: "foldl (\<lambda>xs e. xs @ [f e]) xs ys = xs @ map f ys"
  by (induction ys arbitrary: xs) simp_all

lemma tokenize_loop_eq:
  "tokenize_loop d fin ts acc = (caught_of fin, acc @ map (apply_delegate d) ts)"
proof (induction ts arbitrary: acc)
  case Nil
  show ?case by (cases fin) (simp_all add: caught_of_def)
next
  case (Cons t ts)
  then show ?case by (simp add: push_def)
qed

lemma custom_loop:
  "tokenizeC_custom_loop d fin ts ws hs =
     (caught_of fin, ws @ concat (map words_of ts), hs @ concat (map fragments_of ts))"
proof (induction ts arbitrary: ws hs)
  case Nil
  show ?case by (cases fin) (simp_all add: caught_of_def)
next
  case (Cons t ts)
  show ?case
  proof (cases t)
    case EmptyObject
    with Cons show ?thesis by simp
  next
    case (Token type v)
    with Cons show ?thesis
      by (simp add: isHTML_markup foldl_snoc push_def Let_def
            cut_quotes_plain_word cut_selector_plain_word)
  qed
qed

lemma after_loop_end: "after_loop h None xs = Inr \<lparr>items = xs, attached_errors = errors_attached h\<rparr>"
  by (simp add: after_loop_def errors_attached_def)

lemma after_loop_tolerant:
  "tolerant h \<Longrightarrow>
   after_loop h (Some e) xs = Inr \<lparr>items = xs, attached_errors = Some (errors h @ [e])\<rparr>"
  by (simp add: after_loop_def tolerate_def)

lemma after_loop_strict: "\<not> tolerant h \<Longrightarrow> after_loop h (Some e) xs = Inl e"
  by (simp add: after_loop_def tolerate_def)

lemma tokenizeC_custom_end:
  "ending tk = EndOfInput \<Longrightarrow>
   tokenizeC_custom tk d =
     Inr \<lparr>tokens = \<lparr>items = concat (map words_of (pending tk)),
                     attached_errors = errors_attached (errorHandler tk)\<rparr>,
          html_tokens = concat (map fragments_of (pending tk))\<rparr>"
  by (simp add: tokenizeC_custom_def custom_loop caught_of_def after_loop_end)

text \<open>
  The loop of the variant of \<open>src/esprima.ts\<close>: it never gets to the end of the
  tokenizer's answers after a token that stops it, and it hands identifiers over one by
  one.
\<close>

lemma esprima_loop_end_None: "fst (tokenizeC_esprima_loop d EndOfInput ts acc) = None"
  by (induction d EndOfInput ts acc rule: tokenizeC_esprima_loop.induct) simp_all

lemma esprima_loop_halt:
  "outside_set t \<or> t = Token type [] \<Longrightarrow>
   tokenizeC_esprima_loop d fin (before @ t # rest) acc =
   tokenizeC_esprima_loop d EndOfInput before acc"
proof (induction before arbitrary: acc)
  case Nil
  then show ?case by (cases t) (auto simp: outside_set_def)
next
  case (Cons b bs)
  then show ?case by (cases b) simp_all
qed

lemma esprima_loop_literal:
  "is_literal t \<Longrightarrow>
   tokenizeC_esprima_loop d fin (before @ t # rest) acc =
   tokenizeC_esprima_loop d EndOfInput (before @ [t]) acc"
proof (induction before arbitrary: acc)
  case Nil
  then show ?case by (cases t) (auto simp: is_literal_def)
next
  case (Cons b bs)
  then show ?case by (cases b) simp_all
qed

lemma esprima_loop_identifiers:
  "list_all is_identifier before \<Longrightarrow>
   tokenizeC_esprima_loop d fin (before @ rest) acc =
   tokenizeC_esprima_loop d fin rest (acc @ map (apply_delegate d) before)"
proof (induction before arbitrary: acc)
  case Nil
  then show ?case by simp
next
  case (Cons b bs)
  then show ?case by (cases b) (simp_all add: is_identifier_def push_def)
qed

lemma esprima_loop_literal_head:
  "is_literal (Token type v) \<Longrightarrow>
   tokenizeC_esprima_loop d fin (Token type v # rest) acc =
   (None, acc @ map (\<lambda>piece. TypeValue type (plain_word piece))
                  (js_split CHR '' '' (literal_text type v)))"
  by (auto simp: is_literal_def literal_text_def foldl_snoc push_def cut_quotes_plain_word)

lemma tokenizeC_esprima_end:
  "ending tk = EndOfInput \<Longrightarrow>
   tokenizeC_esprima tk d =
     Inr \<lparr>items = snd (tokenizeC_esprima_loop d EndOfInput (pending tk) []),
          attached_errors = errors_attached (errorHandler tk)\<rparr>"
  using esprima_loop_end_None [of d "pending tk" "[]"]
  by (cases "tokenizeC_esprima_loop d EndOfInput (pending tk) []")
     (simp add: tokenizeC_esprima_def after_loop_end)

text \<open>
  Both variants in full: what is pushed, what is caught and what becomes of it. The
  loop of \<open>src/esprima.ts\<close> gets to the end of the tokenizer's answers only when
  every token is an identifier with a value.
\<close>

lemma esprima_loop_eq:
  "tokenizeC_esprima_loop d fin ts acc =
     (if list_all is_identifier ts then caught_of fin else None, acc @ esprima_items d ts)"
proof (induction ts arbitrary: acc)
  case Nil
  show ?case by (cases fin) (simp_all add: caught_of_def esprima_items_def)
next
  case (Cons t ts)
  show ?case
  proof (cases t)
    case EmptyObject
    then show ?thesis
      by (simp add: is_identifier_def esprima_items_def literal_pairs_def)
  next
    case (Token type v)
    show ?thesis
    proof (cases "is_identifier t")
      case True
      with Token Cons [of "push acc (apply_delegate d t)"] show ?thesis
        by (simp add: is_identifier_def esprima_items_def push_def)
    next
      case False
      with Token show ?thesis
        by (auto simp: is_identifier_def is_literal_def esprima_items_def literal_pairs_def
              literal_text_def foldl_snoc push_def cut_quotes_plain_word)
    qed
  qed
qed

lemma tokenizeC_esprima_cases:
  "tokenizeC_esprima tk d =
     (if list_all is_identifier (pending tk) then
        (case ending tk of
           EndOfInput \<Rightarrow>
             Inr \<lparr>items = esprima_items d (pending tk),
                  attached_errors = errors_attached (errorHandler tk)\<rparr>
         | Raises e \<Rightarrow>
             if tolerant (errorHandler tk)
             then Inr \<lparr>items = esprima_items d (pending tk),
                       attached_errors = Some (errors (errorHandler tk) @ [e])\<rparr>
             else Inl e)
      else Inr \<lparr>items = esprima_items d (pending tk),
                attached_errors = errors_attached (errorHandler tk)\<rparr>)"
  by (simp add: tokenizeC_esprima_def esprima_loop_eq caught_of_def after_loop_end
        after_loop_tolerant after_loop_strict split: scan_end.splits)

lemma tokenizeC_custom_cases:
  "tokenizeC_custom tk d =
     (case ending tk of
        EndOfInput \<Rightarrow>
          Inr \<lparr>tokens = \<lparr>items = concat (map words_of (pending tk)),
                          attached_errors = errors_attached (errorHandler tk)\<rparr>,
               html_tokens = concat (map fragments_of (pending tk))\<rparr>
      | Raises e \<Rightarrow>
          if tolerant (errorHandler tk)
          then Inr \<lparr>tokens = \<lparr>items = concat (map words_of (pending tk)),
                               attached_errors = Some (errors (errorHandler tk) @ [e])\<rparr>,
                    html_tokens = concat (map fragments_of (pending tk))\<rparr>
          else Inl e)"
  by (simp add: tokenizeC_custom_def custom_loop caught_of_def after_loop_end
        after_loop_tolerant after_loop_strict split: scan_end.splits)

text \<open>Every fragment that one token adds to \<open>html_tokens\<close> is a text that the pattern accepts.\<close>

lemma fragments_markup: "h \<in> set (concat (map fragments_of ts)) \<Longrightarrow> markup h"
proof (induction ts)
  case Nil
  then show ?case by simp
next
  case (Cons t ts)
  then show ?case by (cases t) (auto split: if_splits)
qed

section \<open>Markup detection on the examples of the specification\<close>

text \<open>
  Claim C2. The specification says that the markup predicate accepts only tag-shaped
  text, so that \<open><DIV>x</DIV>\<close> and \<open><div>x</div>\<close> are markup and \<open>not html\<close> is not.
  The pattern of \<open>isHTML\<close> has no group around the tag names, so the name \<open>html\<close>
  alone is an alternative: \<open>isHTML\<close> accepts all three texts.
\<close>

theorem isHTML_accepts_plain_text:
  "isHTML ''<DIV>x</DIV>'' = Inr True \<and> isHTML ''<div>x</div>'' = Inr True
   \<and> isHTML ''not html'' = Inr True"
  using markup_tag [of "''div''" "''DIV''" "''<''" "''>x</DIV>''"]
    markup_tag [of "''div''" "''div''" "''<''" "''>x</div>''"]
    markup_tag [of "''html''" "''html''" "''not ''" "[]"]
  by (simp add: isHTML_markup html_tags_def canonicalize_def)

text \<open>
  Claim C6. The specification says that \<open>const x = 'foo bar'\<close> gives the words \<open>foo\<close>
  and \<open>bar\<close> and no markup fragment. The text \<open>foo bar\<close> holds the letter \<open>b\<close>, which
  is a tag name and so an alternative of the pattern: the literal goes to \<open>html_tokens\<close>
  as a whole and gives no word, whether the tokenizer answers an empty object for
  \<open>const\<close> and for \<open>=\<close> or delivers them as a keyword and a punctuator.
\<close>

theorem foo_bar_is_markup:
  "tokenizeC_custom
     \<lparr>pending = [EmptyObject, Token ''Identifier'' ''x'', EmptyObject,
                 Token ''String'' (squote # ''foo bar'' @ [squote])],
      ending = EndOfInput, errorHandler = \<lparr>tolerant = False, errors = []\<rparr>\<rparr>
     (None :: (token \<Rightarrow> token) option)
   = Inr \<lparr>tokens = \<lparr>items = [''x''], attached_errors = None\<rparr>, html_tokens = [''foo bar'']\<rparr>
   \<and> tokenizeC_custom
     \<lparr>pending = [Token ''Keyword'' ''const'', Token ''Identifier'' ''x'',
                 Token ''Punctuator'' ''='', Token ''String'' (squote # ''foo bar'' @ [squote])],
      ending = EndOfInput, errorHandler = \<lparr>tolerant = False, errors = []\<rparr>\<rparr>
     (None :: (token \<Rightarrow> token) option)
   = Inr \<lparr>tokens = \<lparr>items = [''const'', ''x'', ''=''], attached_errors = None\<rparr>,
          html_tokens = [''foo bar'']\<rparr>"
  using markup_tag [of "''b''" "''b''" "''foo ''" "''ar''"]
  by (simp add: tokenizeC_custom_end errors_attached_def unwrappedString_inner html_tags_def)

section \<open>The delegate of the classifier\<close>

text \<open>
  Claim C10. In the variant that goes on after a token that is neither a string nor a
  template, the value pushed for such a token is \<open>value\<close>, the text read from the token
  before the delegate is called. So the result is the same for every delegate and
  without one, and whenever the call returns (the tokenizer reaches the end of input, or
  the handler is tolerant) the token adds exactly its own value to \<open>tokens\<close>, between
  what the tokens before and after it add, and nothing to \<open>html_tokens\<close>.
\<close>

theorem pushed_value_ignores_delegate:
  "tokenizeC_custom tk (Some f) = tokenizeC_custom tk (Some g)
   \<and> tokenizeC_custom tk (Some f) = tokenizeC_custom tk None
   \<and> (pending tk = before @ Token type v # rest \<and> type \<noteq> ''String'' \<and> type \<noteq> ''Template''
        \<and> (ending tk = EndOfInput \<or> tolerant (errorHandler tk))
      \<longrightarrow> (\<exists>r. tokenizeC_custom tk (Some f) = Inr r
            \<and> items (tokens r) = concat (map words_of before) @ [v] @ concat (map words_of rest)
            \<and> html_tokens r = concat (map fragments_of before) @ concat (map fragments_of rest)))"
proof (intro conjI impI)
  show "tokenizeC_custom tk (Some f) = tokenizeC_custom tk (Some g)"
    by (simp add: tokenizeC_custom_cases)
  show "tokenizeC_custom tk (Some f) = tokenizeC_custom tk None"
    by (simp add: tokenizeC_custom_cases)
next
  assume a: "pending tk = before @ Token type v # rest \<and> type \<noteq> ''String'' \<and> type \<noteq> ''Template''
        \<and> (ending tk = EndOfInput \<or> tolerant (errorHandler tk))"
  then have "words_of (Token type v) = [v]" and "fragments_of (Token type v) = []" by simp_all
  with a show "\<exists>r. tokenizeC_custom tk (Some f) = Inr r
            \<and> items (tokens r) = concat (map words_of before) @ [v] @ concat (map words_of rest)
            \<and> html_tokens r = concat (map fragments_of before) @ concat (map fragments_of rest)"
    using tokenizeC_custom_cases [of tk "Some f"] by (auto split: scan_end.splits)
qed

theorem pushed_value_ignores_delegate_witness:
  "(pending \<lparr>pending = [Token ''Identifier'' ''x'', Token ''Punctuator'' ''=''],
             ending = EndOfInput, errorHandler = \<lparr>tolerant = False, errors = []\<rparr>\<rparr>
      = [] @ Token ''Identifier'' ''x'' # [Token ''Punctuator'' ''='']
    \<and> ''Identifier'' \<noteq> ''String'' \<and> ''Identifier'' \<noteq> ''Template'')
   \<and> tokenizeC_custom
        \<lparr>pending = [Token ''Identifier'' ''x'', Token ''Punctuator'' ''=''],
         ending = EndOfInput, errorHandler = \<lparr>tolerant = False, errors = []\<rparr>\<rparr>
        (Some (\<lambda>t. Token ''Changed'' ''other''))
      = Inr \<lparr>tokens = \<lparr>items = [''x'', ''=''], attached_errors = None\<rparr>, html_tokens = []\<rparr>"
proof -
  let ?tk = "\<lparr>pending = [Token ''Identifier'' ''x'', Token ''Punctuator'' ''=''],
         ending = EndOfInput, errorHandler = \<lparr>tolerant = False, errors = []\<rparr>\<rparr>"
  let ?f = "\<lambda>t::token. Token ''Changed'' ''other''"
  from pushed_value_ignores_delegate
    [of ?tk ?f ?f "[]" "''Identifier''" "''x''" "[Token ''Punctuator'' ''='']"]
  obtain r where r: "tokenizeC_custom ?tk (Some ?f) = Inr r"
    "items (tokens r) = [''x'', ''='']" "html_tokens r = []"
    by auto
  have "attached_errors (tokens r) = None"
    using r(1) by (auto simp: tokenizeC_custom_cases errors_attached_def)
  with r have "r = \<lparr>tokens = \<lparr>items = [''x'', ''=''], attached_errors = None\<rparr>, html_tokens = []\<rparr>"
    by (cases r, cases "tokens r") auto
  with r(1) show ?thesis by simp
qed

section \<open>The result of tokenize\<close>

text \<open>
  Claim C7, as stated: for every source and options \<open>tokenize\<close> returns the tokens
  scanned. It does not when the tokenizer raises and the handler is strict: the error
  caught goes to \<open>tolerate\<close>, which raises it again.
\<close>

theorem tokenize_strict_raises:
  "tokenize \<lparr>pending = [], ending = Raises (ParseError ''Unexpected token ILLEGAL'' 0 1 0),
             errorHandler = \<lparr>tolerant = False, errors = []\<rparr>\<rparr> (None :: (token \<Rightarrow> token) option)
   = Inl (ParseError ''Unexpected token ILLEGAL'' 0 1 0)"
  by (simp add: tokenize_def after_loop_def tolerate_def)

text \<open>
  Claim C7, amended. When the tokenizer reaches the end of input, \<open>tokenize\<close> returns
  the tokens delivered, in order, each as the delegate left it, and the errors are
  attached exactly when the handler is tolerant. When the tokenizer raises, a tolerant
  handler records the error and the tokens delivered before it are returned with the
  errors attached; a strict handler raises the error to the caller.
\<close>

theorem tokenize_result:
  "tokenize tk d =
     (case ending tk of
        EndOfInput \<Rightarrow>
          Inr \<lparr>items = map (apply_delegate d) (pending tk),
               attached_errors =
                 (if tolerant (errorHandler tk) then Some (errors (errorHandler tk)) else None)\<rparr>
      | Raises e \<Rightarrow>
          if tolerant (errorHandler tk)
          then Inr \<lparr>items = map (apply_delegate d) (pending tk),
                    attached_errors = Some (errors (errorHandler tk) @ [e])\<rparr>
          else Inl e)"
  by (simp add: tokenize_def tokenize_loop_eq caught_of_def after_loop_def tolerate_def
        split: scan_end.splits)

section \<open>What tokenizeC returns\<close>

text \<open>
  Claim C1, as stated: for every source and options \<open>tokenizeC\<close> returns an object
  with the fields \<open>tokens\<close> and \<open>htmlTokens\<close>. The variant of \<open>src/esprima.ts\<close> returns
  the array of tokens alone: for the literal \<open>'<div>hi</div>'\<close> the markup text is the
  value of a \<open>{type, value}\<close> pair of that array and there is no sequence of markup
  fragments. And when the tokenizer raises under a strict handler, the variant with
  markup detection raises the error instead of returning.
\<close>

theorem tokenizeC_esprima_returns_array:
  "tokenizeC_esprima
     \<lparr>pending = [Token ''String'' (squote # ''<div>hi</div>'' @ [squote])],
      ending = EndOfInput, errorHandler = \<lparr>tolerant = False, errors = []\<rparr>\<rparr>
     (None :: (token \<Rightarrow> token) option)
   = Inr \<lparr>items = [TypeValue ''String'' ''<div>hi</div>''], attached_errors = None\<rparr>
   \<and> tokenizeC_custom
     \<lparr>pending = [], ending = Raises (ParseError ''Unexpected token ILLEGAL'' 0 1 0),
      errorHandler = \<lparr>tolerant = False, errors = []\<rparr>\<rparr>
     (None :: (token \<Rightarrow> token) option)
   = Inl (ParseError ''Unexpected token ILLEGAL'' 0 1 0)"
  by (simp add: tokenizeC_esprima_def tokenizeC_custom_def after_loop_def tolerate_def
        unwrappedString_inner push_def cut_quotes_plain_word plain_word_def starts_with_quote_def
        squote_def dquote_def)

text \<open>
  Claim C1, amended. The variant with markup detection returns an object with two
  fields whenever the tokenizer reaches the end of input or the handler is tolerant:
  \<open>tokens\<close>, the sequence of the words as strings, which carries the errors exactly
  when the handler is tolerant, and \<open>html_tokens\<close>, the sequence, in source order, of
  the unwrapped string and template literals that \<open>isHTML\<close> accepts. The variant of
  \<open>src/esprima.ts\<close> returns the sequence of tokens only: the identifiers before the
  first other token, as the delegate left them, and the \<open>{type, value}\<close> pairs of the
  pieces of that token when it is a string or a template. When the tokenizer raises
  under a strict handler, the error is raised to the caller; in \<open>src/esprima.ts\<close> that
  happens only when the loop has not stopped before, that is when every token was an
  identifier.
\<close>

theorem tokenizeC_result_shape:
  "tokenizeC_custom tk d =
     (case ending tk of
        EndOfInput \<Rightarrow>
          Inr \<lparr>tokens = \<lparr>items = concat (map words_of (pending tk)),
                          attached_errors = errors_attached (errorHandler tk)\<rparr>,
               html_tokens = concat (map fragments_of (pending tk))\<rparr>
      | Raises e \<Rightarrow>
          if tolerant (errorHandler tk)
          then Inr \<lparr>tokens = \<lparr>items = concat (map words_of (pending tk)),
                               attached_errors = Some (errors (errorHandler tk) @ [e])\<rparr>,
                    html_tokens = concat (map fragments_of (pending tk))\<rparr>
          else Inl e)
   \<and> list_all markup (concat (map fragments_of (pending tk)))
   \<and> tokenizeC_esprima tk d' =
     (if list_all is_identifier (pending tk) then
        (case ending tk of
           EndOfInput \<Rightarrow>
             Inr \<lparr>items = esprima_items d' (pending tk),
                  attached_errors = errors_attached (errorHandler tk)\<rparr>
         | Raises e \<Rightarrow>
             if tolerant (errorHandler tk)
             then Inr \<lparr>items = esprima_items d' (pending tk),
                       attached_errors = Some (errors (errorHandler tk) @ [e])\<rparr>
             else Inl e)
      else Inr \<lparr>items = esprima_items d' (pending tk),
                attached_errors = errors_attached (errorHandler tk)\<rparr>)"
  using tokenizeC_custom_cases [of tk d] tokenizeC_esprima_cases [of tk d']
  by (simp add: list_all_iff fragments_markup)

theorem tokenizeC_result_shape_witness:
  "tokenizeC_custom
     \<lparr>pending = [Token ''Identifier'' ''x'', Token ''String'' (squote # ''<div>hi</div>'' @ [squote])],
      ending = Raises (ParseError ''Unexpected token ILLEGAL'' 20 1 20),
      errorHandler = \<lparr>tolerant = True, errors = []\<rparr>\<rparr>
     (None :: (token \<Rightarrow> token) option)
   = Inr \<lparr>tokens = \<lparr>items = [''x''],
                   attached_errors = Some [ParseError ''Unexpected token ILLEGAL'' 20 1 20]\<rparr>,
          html_tokens = [''<div>hi</div>'']\<rparr>
   \<and> tokenizeC_esprima
     \<lparr>pending = [Token ''Identifier'' ''x'', Token ''String'' (squote # ''<div>hi</div>'' @ [squote])],
      ending = Raises (ParseError ''Unexpected token ILLEGAL'' 20 1 20),
      errorHandler = \<lparr>tolerant = True, errors = []\<rparr>\<rparr>
     (None :: (token \<Rightarrow> token) option)
   = Inr \<lparr>items = [Plain (Token ''Identifier'' ''x''), TypeValue ''String'' ''<div>hi</div>''],
          attached_errors = Some []\<rparr>
   \<and> tokenizeC_esprima
     \<lparr>pending = [Token ''Identifier'' ''x''],
      ending = Raises (ParseError ''Unexpected token ILLEGAL'' 2 1 2),
      errorHandler = \<lparr>tolerant = False, errors = []\<rparr>\<rparr>
     (None :: (token \<Rightarrow> token) option)
   = Inl (ParseError ''Unexpected token ILLEGAL'' 2 1 2)"
proof -
  let ?x = "Token ''Identifier'' ''x''"
  let ?s = "Token ''String'' (squote # ''<div>hi</div>'' @ [squote])"
  let ?d = "None :: (token \<Rightarrow> token) option"
  have m: "markup ''<div>hi</div>''"
    using markup_tag [of "''div''" "''div''" "''<''" "''>hi</div>''"] by (simp add: html_tags_def)
  have ids: "is_identifier ?x" "\<not> is_identifier ?s" "is_literal ?s"
    by (simp_all add: is_identifier_def is_literal_def)
  have items: "esprima_items ?d [?x, ?s] = [Plain ?x, TypeValue ''String'' ''<div>hi</div>'']"
    "esprima_items ?d [?x] = [Plain ?x]"
    using ids
    by (simp_all add: esprima_items_def literal_pairs_def literal_text_def apply_delegate_def
        unwrappedString_inner plain_word_def starts_with_quote_def squote_def dquote_def)
  show ?thesis
    using tokenizeC_result_shape
        [of "\<lparr>pending = [?x, ?s], ending = Raises (ParseError ''Unexpected token ILLEGAL'' 20 1 20),
              errorHandler = \<lparr>tolerant = True, errors = []\<rparr>\<rparr>" ?d ?d]
      tokenizeC_result_shape
        [of "\<lparr>pending = [?x], ending = Raises (ParseError ''Unexpected token ILLEGAL'' 2 1 2),
              errorHandler = \<lparr>tolerant = False, errors = []\<rparr>\<rparr>" ?d ?d]
      m ids items
    by (simp add: errors_attached_def unwrappedString_inner)
qed

section \<open>When the classifier raises\<close>




section \<open>The two variants of tokenizeC\<close>

text \<open>
  Claim C5, as stated: the two variants differ only in what they do at a token that is
  not an identifier, a template or a string. They differ on strings alone: for two
  string tokens the variant of \<open>src/esprima.ts\<close> stops after the first and gives its
  word as a \<open>{type, value}\<close> pair, the variant with markup detection gives the words of
  both as strings.
\<close>

theorem variants_differ_on_literals:
  "tokenizeC_esprima
     \<lparr>pending = [Token ''String'' (squote # ''x'' @ [squote]), Token ''String'' (squote # ''y'' @ [squote])],
      ending = EndOfInput, errorHandler = \<lparr>tolerant = False, errors = []\<rparr>\<rparr>
     (None :: (token \<Rightarrow> token) option)
   = Inr \<lparr>items = [TypeValue ''String'' ''x''], attached_errors = None\<rparr>
   \<and> tokenizeC_custom
     \<lparr>pending = [Token ''String'' (squote # ''x'' @ [squote]), Token ''String'' (squote # ''y'' @ [squote])],
      ending = EndOfInput, errorHandler = \<lparr>tolerant = False, errors = []\<rparr>\<rparr>
     (None :: (token \<Rightarrow> token) option)
   = Inr \<lparr>tokens = \<lparr>items = [''x'', ''y''], attached_errors = None\<rparr>, html_tokens = []\<rparr>"
proof -
  have "\<not> markup ''x''" and "\<not> markup ''y''"
    by (rule not_markup, simp add: canonicalize_def first_chars_def)+
  then show ?thesis
    by (simp add: tokenizeC_esprima_def tokenizeC_custom_end after_loop_end errors_attached_def
        unwrappedString_inner push_def cut_quotes_plain_word plain_word_def selector_word_def
        starts_with_quote_def starts_with_selector_def squote_def dquote_def)
qed

text \<open>
  Claim C5, amended. The variant of \<open>src/esprima.ts\<close> stops at the first token that
  is not an identifier, a template or a string: what comes after it, tokens or a
  lexical error, changes nothing. It also stops after the first string or template with
  a value. The variant with markup detection goes on after every token: each token adds
  its words and its fragments, whatever stands before and after it.
\<close>

theorem scanning_policies:
  "(pending tk = before @ t # rest \<and> outside_set t \<longrightarrow>
      tokenizeC_esprima tk d = tokenizeC_esprima (tk\<lparr>pending := before, ending := EndOfInput\<rparr>) d)
   \<and> (pending tk = before @ t # rest \<and> is_literal t \<longrightarrow>
      tokenizeC_esprima tk d = tokenizeC_esprima (tk\<lparr>pending := before @ [t], ending := EndOfInput\<rparr>) d)
   \<and> (pending tk = before @ t # rest \<and> ending tk = EndOfInput \<longrightarrow>
      (\<exists>r. tokenizeC_custom tk d = Inr r
         \<and> items (tokens r) = concat (map words_of before) @ words_of t @ concat (map words_of rest)
         \<and> html_tokens r = concat (map fragments_of before) @ fragments_of t @ concat (map fragments_of rest)))"
proof (intro conjI impI)
  assume "pending tk = before @ t # rest \<and> outside_set t"
  then show "tokenizeC_esprima tk d = tokenizeC_esprima (tk\<lparr>pending := before, ending := EndOfInput\<rparr>) d"
    using esprima_loop_halt [of t "[]" d "ending tk" before rest "[]"]
    by (simp add: tokenizeC_esprima_def)
next
  assume "pending tk = before @ t # rest \<and> is_literal t"
  then show "tokenizeC_esprima tk d = tokenizeC_esprima (tk\<lparr>pending := before @ [t], ending := EndOfInput\<rparr>) d"
    using esprima_loop_literal [of t d "ending tk" before rest "[]"]
    by (simp add: tokenizeC_esprima_def)
next
  assume "pending tk = before @ t # rest \<and> ending tk = EndOfInput"
  then show "\<exists>r. tokenizeC_custom tk d = Inr r
         \<and> items (tokens r) = concat (map words_of before) @ words_of t @ concat (map words_of rest)
         \<and> html_tokens r = concat (map fragments_of before) @ fragments_of t @ concat (map fragments_of rest)"
    by (simp add: tokenizeC_custom_end)
qed

theorem scanning_policies_witness:
  "(pending \<lparr>pending = [Token ''Identifier'' ''x'', Token ''Punctuator'' ''='',
                        Token ''String'' (squote # ''y'' @ [squote]),
                        Token ''String'' (squote # ''z'' @ [squote])],
             ending = EndOfInput, errorHandler = \<lparr>tolerant = False, errors = []\<rparr>\<rparr>
      = [Token ''Identifier'' ''x''] @ Token ''Punctuator'' ''=''
          # [Token ''String'' (squote # ''y'' @ [squote]), Token ''String'' (squote # ''z'' @ [squote])]
     \<and> outside_set (Token ''Punctuator'' ''=''))
   \<and> tokenizeC_esprima
        \<lparr>pending = [Token ''Identifier'' ''x'', Token ''Punctuator'' ''='',
                    Token ''String'' (squote # ''y'' @ [squote]),
                    Token ''String'' (squote # ''z'' @ [squote])],
         ending = EndOfInput, errorHandler = \<lparr>tolerant = False, errors = []\<rparr>\<rparr>
        (None :: (token \<Rightarrow> token) option)
      = Inr \<lparr>items = [Plain (Token ''Identifier'' ''x'')], attached_errors = None\<rparr>
   \<and> is_literal (Token ''String'' (squote # ''y'' @ [squote]))
   \<and> tokenizeC_esprima
        \<lparr>pending = [Token ''Identifier'' ''x'',
                    Token ''String'' (squote # ''y'' @ [squote]),
                    Token ''String'' (squote # ''z'' @ [squote])],
         ending = EndOfInput, errorHandler = \<lparr>tolerant = False, errors = []\<rparr>\<rparr>
        (None :: (token \<Rightarrow> token) option)
      = Inr \<lparr>items = [Plain (Token ''Identifier'' ''x''), TypeValue ''String'' ''y''],
             attached_errors = None\<rparr>
   \<and> tokenizeC_custom
        \<lparr>pending = [Token ''Identifier'' ''x'', Token ''Punctuator'' ''='',
                    Token ''String'' (squote # ''y'' @ [squote]),
                    Token ''String'' (squote # ''z'' @ [squote])],
         ending = EndOfInput, errorHandler = \<lparr>tolerant = False, errors = []\<rparr>\<rparr>
        (None :: (token \<Rightarrow> token) option)
      = Inr \<lparr>tokens = \<lparr>items = [''x'', ''='', ''y'', ''z''], attached_errors = None\<rparr>,
             html_tokens = []\<rparr>"
proof -
  let ?x = "Token ''Identifier'' ''x''" and ?eq = "Token ''Punctuator'' ''=''"
  let ?y = "Token ''String'' (squote # ''y'' @ [squote])"
  let ?z = "Token ''String'' (squote # ''z'' @ [squote])"
  let ?h = "\<lparr>tolerant = False, errors = []\<rparr>"
  let ?tk = "\<lparr>pending = [?x, ?eq, ?y, ?z], ending = EndOfInput, errorHandler = ?h\<rparr>"
  let ?tk' = "\<lparr>pending = [?x, ?y, ?z], ending = EndOfInput, errorHandler = ?h\<rparr>"
  let ?d = "None :: (token \<Rightarrow> token) option"
  have out: "outside_set ?eq" by (simp add: outside_set_def)
  have lit: "is_literal ?y" by (simp add: is_literal_def)
  have nm: "\<not> markup ''y''" "\<not> markup ''z''"
    by (rule not_markup, simp add: canonicalize_def first_chars_def)+
  have 1: "tokenizeC_esprima ?tk ?d = tokenizeC_esprima (?tk\<lparr>pending := [?x], ending := EndOfInput\<rparr>) ?d"
    using scanning_policies [of ?tk "[?x]" ?eq "[?y, ?z]" ?d] out by simp
  have 2: "tokenizeC_esprima ?tk' ?d = tokenizeC_esprima (?tk'\<lparr>pending := [?x] @ [?y], ending := EndOfInput\<rparr>) ?d"
    using scanning_policies [of ?tk' "[?x]" ?y "[?z]" ?d] lit by simp
  have 3: "\<exists>r. tokenizeC_custom ?tk ?d = Inr r
         \<and> items (tokens r) = concat (map words_of [?x, ?eq]) @ words_of ?y @ concat (map words_of [?z])
         \<and> html_tokens r = concat (map fragments_of [?x, ?eq]) @ fragments_of ?y @ concat (map fragments_of [?z])"
    using scanning_policies [of ?tk "[?x, ?eq]" ?y "[?z]" ?d] by simp
  have e1: "tokenizeC_esprima (?tk\<lparr>pending := [?x], ending := EndOfInput\<rparr>) ?d
      = Inr \<lparr>items = [Plain ?x], attached_errors = None\<rparr>"
    by (simp add: tokenizeC_esprima_def after_loop_end errors_attached_def push_def apply_delegate_def)
  have e2: "tokenizeC_esprima (?tk'\<lparr>pending := [?x] @ [?y], ending := EndOfInput\<rparr>) ?d
      = Inr \<lparr>items = [Plain ?x, TypeValue ''String'' ''y''], attached_errors = None\<rparr>"
    by (simp add: tokenizeC_esprima_def after_loop_end errors_attached_def push_def apply_delegate_def
        unwrappedString_inner cut_quotes_plain_word plain_word_def starts_with_quote_def
        squote_def dquote_def)
  from 3 obtain r where r: "tokenizeC_custom ?tk ?d = Inr r"
    "items (tokens r) = concat (map words_of [?x, ?eq]) @ words_of ?y @ concat (map words_of [?z])"
    "html_tokens r = concat (map fragments_of [?x, ?eq]) @ fragments_of ?y @ concat (map fragments_of [?z])"
    by blast
  have w: "items (tokens r) = [''x'', ''='', ''y'', ''z'']" "html_tokens r = []"
    using r(2,3) nm
    by (simp_all add: unwrappedString_inner selector_word_def plain_word_def starts_with_quote_def
        starts_with_selector_def squote_def dquote_def)
  have a: "attached_errors (tokens r) = None"
    using r(1) by (auto simp: tokenizeC_custom_end errors_attached_def)
  have "r = \<lparr>tokens = \<lparr>items = [''x'', ''='', ''y'', ''z''], attached_errors = None\<rparr>, html_tokens = []\<rparr>"
    using w a by (cases r, cases "tokens r") auto
  with r(1) 1 2 e1 e2 out lit show ?thesis by simp
qed

section \<open>The pieces of a literal\<close>

text \<open>
  Claim C4. The specification says that each piece of a literal loses one layer of
  surrounding quote characters, so that a piece whose first character is a quote loses
  its quote characters and nothing else. The code means to cut the quotes, but it looks
  at the first character only and then cuts the first and the last one: in the string
  \<open>"x 'yz"\<close> the piece \<open>'yz\<close> becomes \<open>y\<close> and loses the letter \<open>z\<close>, in both
  variants.
\<close>

theorem quoted_piece_loses_last_character:
  "tokenizeC_custom
     \<lparr>pending = [Token ''String'' (dquote # ''x '' @ [squote] @ ''yz'' @ [dquote])],
      ending = EndOfInput, errorHandler = \<lparr>tolerant = False, errors = []\<rparr>\<rparr>
     (None :: (token \<Rightarrow> token) option)
   = Inr \<lparr>tokens = \<lparr>items = [''x'', ''y''], attached_errors = None\<rparr>, html_tokens = []\<rparr>
   \<and> tokenizeC_esprima
     \<lparr>pending = [Token ''String'' (dquote # ''x '' @ [squote] @ ''yz'' @ [dquote])],
      ending = EndOfInput, errorHandler = \<lparr>tolerant = False, errors = []\<rparr>\<rparr>
     (None :: (token \<Rightarrow> token) option)
   = Inr \<lparr>items = [TypeValue ''String'' ''x'', TypeValue ''String'' ''y''], attached_errors = None\<rparr>
   \<and> js_split CHR '' '' (''x '' @ [squote] @ ''yz'') = [''x'', [squote] @ ''yz'']
   \<and> cut_quotes ([squote] @ ''yz'') = ''y''
   \<and> non_quote_chars (cut_quotes ([squote] @ ''yz'')) \<noteq> non_quote_chars ([squote] @ ''yz'')"
proof -
  have "\<not> markup (''x '' @ [squote] @ ''yz'')"
    by (rule not_markup) (simp add: canonicalize_def first_chars_def squote_def)
  then show ?thesis
    by (simp add: tokenizeC_custom_end tokenizeC_esprima_def after_loop_end push_def
        errors_attached_def unwrappedString_inner
        selector_word_def plain_word_def cut_quotes_plain_word starts_with_quote_def
        starts_with_selector_def non_quote_chars_def squote_def dquote_def)
qed

text \<open>
  The rest of what the code does with a literal: the text is split at each space and
  every piece gives one word, in order, between the words of the tokens before and
  after. \<open>plain_word\<close> and \<open>selector_word\<close> are the cuts as the code makes them.
\<close>

lemma literal_pieces:
  "(ending tk = EndOfInput \<and> pending tk = before @ Token type v # rest
      \<and> (type = ''String'' \<or> type = ''Template'') \<and> \<not> markup (literal_text type v)
    \<longrightarrow> (\<exists>r. tokenizeC_custom tk d = Inr r
          \<and> items (tokens r) =
              concat (map words_of before)
              @ map (if type = ''String'' then selector_word else plain_word)
                  (js_split CHR '' '' (literal_text type v))
              @ concat (map words_of rest)))
   \<and> (pending tk = before @ Token type v # rest \<and> list_all is_identifier before
      \<and> is_literal (Token type v)
    \<longrightarrow> (\<exists>r. tokenizeC_esprima tk d = Inr r
          \<and> items r =
              map (apply_delegate d) before
              @ map (\<lambda>piece. TypeValue type (plain_word piece))
                  (js_split CHR '' '' (literal_text type v))))"
proof (intro conjI impI)
  assume a: "ending tk = EndOfInput \<and> pending tk = before @ Token type v # rest
      \<and> (type = ''String'' \<or> type = ''Template'') \<and> \<not> markup (literal_text type v)"
  then have "words_of (Token type v) =
      map (if type = ''String'' then selector_word else plain_word)
        (js_split CHR '' '' (literal_text type v))"
    by (auto simp: literal_text_def)
  with a show "\<exists>r. tokenizeC_custom tk d = Inr r
          \<and> items (tokens r) =
              concat (map words_of before)
              @ map (if type = ''String'' then selector_word else plain_word)
                  (js_split CHR '' '' (literal_text type v))
              @ concat (map words_of rest)"
    by (simp add: tokenizeC_custom_end)
next
  assume a: "pending tk = before @ Token type v # rest \<and> list_all is_identifier before
      \<and> is_literal (Token type v)"
  then have "tokenizeC_esprima_loop d (ending tk) (pending tk) [] =
      (None, map (apply_delegate d) before
             @ map (\<lambda>piece. TypeValue type (plain_word piece))
                 (js_split CHR '' '' (literal_text type v)))"
    by (simp add: esprima_loop_identifiers esprima_loop_literal_head
          del: tokenizeC_esprima_loop.simps)
  then show "\<exists>r. tokenizeC_esprima tk d = Inr r
          \<and> items r =
              map (apply_delegate d) before
              @ map (\<lambda>piece. TypeValue type (plain_word piece))
                  (js_split CHR '' '' (literal_text type v))"
    by (simp add: tokenizeC_esprima_def after_loop_end)
qed

section \<open>parseModule and parseScript\<close>



section \<open>The options object after the call\<close>

text \<open>The store after \<open>parse\<close> does not depend on the parser.\<close>

lemma parse_store:
  "snd (parse parser code (Some r) delegate st) =
     (if boolean_true (comment (object st r)) \<or> boolean_true (attachComment (object st r))
      then set_comment r (JBoolean True) st else st)"
  by (simp add: parse_def Let_def split: sum.splits)

lemma parse_store_None: "snd (parse parser code None delegate st) = st"
  by (simp add: parse_def Let_def split: sum.splits)

text \<open>
  Claim C9. The functions write to the options object of the caller: after \<open>parse\<close>
  with \<open>attachComment\<close> requested its \<open>comment\<close> is \<open>true\<close>, and after \<open>parseModule\<close>
  and \<open>parseScript\<close> its \<open>sourceType\<close> is \<open>module\<close> and \<open>script\<close>. An object that did
  not hold these values before is therefore changed by the call.
\<close>

theorem options_written_in_place:
  "(boolean_true (attachComment (object st r)) \<longrightarrow>
      comment (object (snd (parse parser code (Some r) delegate st)) r) = JBoolean True)
   \<and> sourceType (object (snd (parseModule parser code (Some r) delegate st)) r) = JString ''module''
   \<and> sourceType (object (snd (parseScript parser code (Some r) delegate st)) r) = JString ''script''"
  by (simp add: parseModule_def parseScript_def options_or_new_def parse_store
        set_comment_def set_sourceType_def)

theorem options_written_in_place_witness:
  "boolean_true (attachComment (object
       \<lparr>object = (\<lambda>_. empty_object\<lparr>attachComment := JBoolean True\<rparr>), next_ref = 1\<rparr> 0))
   \<and> comment (object \<lparr>object = (\<lambda>_. empty_object\<lparr>attachComment := JBoolean True\<rparr>), next_ref = 1\<rparr> 0)
       = JUndefined
   \<and> comment (object (snd (parse ((\<lambda>_ _ _ _ _. Inl (SyntaxError [])) :: (unit, unit) parser)
         ''x'' (Some 0) None
         \<lparr>object = (\<lambda>_. empty_object\<lparr>attachComment := JBoolean True\<rparr>), next_ref = 1\<rparr>)) 0)
       = JBoolean True
   \<and> sourceType (object \<lparr>object = (\<lambda>_. empty_object\<lparr>attachComment := JBoolean True\<rparr>), next_ref = 1\<rparr> 0)
       = JUndefined
   \<and> sourceType (object (snd (parseModule ((\<lambda>_ _ _ _ _. Inl (SyntaxError [])) :: (unit, unit) parser)
         ''x'' (Some 0) None
         \<lparr>object = (\<lambda>_. empty_object\<lparr>attachComment := JBoolean True\<rparr>), next_ref = 1\<rparr>)) 0)
       = JString ''module''"
  using options_written_in_place
    [of "\<lparr>object = (\<lambda>_. empty_object\<lparr>attachComment := JBoolean True\<rparr>), next_ref = 1\<rparr>" 0
      "(\<lambda>_ _ _ _ _. Inl (SyntaxError [])) :: (unit, unit) parser" "''x''" None]
  by (simp add: boolean_true_def empty_object_def)

end
